theory Spec2Isabelle
  imports Main "HOL-Library.Word" "HOL-Library.Sublist"
begin

section \<open>Status values\<close>

text \<open>
  An Arrow \<^verbatim>\<open>Status\<close> is either OK or an error with a code and a message built by
  concatenating the arguments of \<^verbatim>\<open>Status::Invalid(...)\<close>, \<^verbatim>\<open>Status::IOError(...)\<close>.
  A \<^verbatim>\<open>Status\<close> is modelled as \<open>error option\<close> (\<open>None\<close> is \<^verbatim>\<open>Status::OK()\<close>), a
  \<^verbatim>\<open>Result<T>\<close> as \<open>error + T\<close>.

  Modelled from the spec: \<^verbatim>\<open>internal::PathNotFound\<close> and \<^verbatim>\<open>internal::NotAFile\<close>
  (declared in \<^verbatim>\<open>arrow/filesystem/util_internal.h\<close>, not part of the sources at hand) produce the error
  kinds "path not found" and "not a file" of the error taxonomy, each carrying the path
  it is given.

  \<open>NullDereference\<close> is no Arrow status: it marks the undefined behaviour of calling
  through a null \<^verbatim>\<open>blob_client_\<close>.
\<close>

datatype error =
    Invalid string
  | IOError string
  | PathNotFound string
  | NotAFile string
  | NullDereference

type_synonym Status = "error option"

fun message :: "error \<Rightarrow> string" where
  "message (Invalid m) = m"
| "message (IOError m) = m"
| "message (PathNotFound p) = p"
| "message (NotAFile p) = p"
| "message NullDereference = []"

text \<open>The apostrophe that the messages of the source put around paths and URLs.\<close>

definition apostrophe :: string where
  "apostrophe = [CHR 0x27]"

section \<open>String helpers of the path utilities\<close>

text \<open>
  Modelled from the spec: \<^verbatim>\<open>internal::kSep\<close> (\<^verbatim>\<open>arrow/filesystem/path_util.h\<close>, not part of the sources at hand), the
  separator of the address format \<^verbatim>\<open>"<container>[/<segment>...]"\<close>.
\<close>

definition kSep :: char where
  "kSep = CHR ''/''"

text \<open>\<^verbatim>\<open>std::string::find_first_of(char)\<close>: the first index holding the character,
  \<open>None\<close> for \<^verbatim>\<open>npos\<close>.\<close>

fun find_first_of :: "string \<Rightarrow> char \<Rightarrow> nat option" where
  "find_first_of [] c = None"
| "find_first_of (x # xs) c =
     (if x = c then Some 0 else map_option Suc (find_first_of xs c))"

text \<open>
  Modelled from the spec: \<^verbatim>\<open>internal::RemoveTrailingSlash\<close> (\<^verbatim>\<open>path_util\<close>, not in the
  sources at hand): "trailing separators stripped".
\<close>

definition RemoveTrailingSlash :: "string \<Rightarrow> string" where
  "RemoveTrailingSlash s = rev (dropWhile (\<lambda>c. c = kSep) (rev s))"

text \<open>ASCII letters, and the characters a URI scheme name is made of: letters, digits,
  plus, minus and dot.\<close>

definition is_alpha :: "char \<Rightarrow> bool" where
  "is_alpha c = (let n = (of_char c :: nat) in (65 \<le> n \<and> n \<le> 90) \<or> (97 \<le> n \<and> n \<le> 122))"

definition is_scheme_char :: "char \<Rightarrow> bool" where
  "is_scheme_char c =
     (let n = (of_char c :: nat)
      in is_alpha c \<or> (48 \<le> n \<and> n \<le> 57) \<or> n = 43 \<or> n = 45 \<or> n = 46)"

text \<open>
  Modelled from the spec: the scheme test behind \<^verbatim>\<open>internal::IsLikelyUri\<close> (not in the
  sources at hand): what "scheme present" asks of the text before the colon.
\<close>

fun IsValidUriScheme :: "string \<Rightarrow> bool" where
  "IsValidUriScheme [] = False"
| "IsValidUriScheme (c # cs) = (is_alpha c \<and> list_all is_scheme_char cs)"

text \<open>
  Modelled from the spec: \<^verbatim>\<open>internal::IsLikelyUri\<close> (\<^verbatim>\<open>path_util\<close>, not in the sources at
  hand): "a URI-looking string (scheme present)", as in \<^verbatim>\<open>"https://x/y"\<close>. A scheme is
  present when the text before the first colon is a scheme name: a letter followed by
  scheme characters.
\<close>

definition IsLikelyUri :: "string \<Rightarrow> bool" where
  "IsLikelyUri s =
     (case find_first_of s (CHR '':'') of
        None \<Rightarrow> False
      | Some pos \<Rightarrow> IsValidUriScheme (take pos s))"

text \<open>Splitting at every occurrence of a character; the pieces of \<open>n\<close> occurrences are
  \<open>n + 1\<close> strings.\<close>

fun split_on :: "char \<Rightarrow> string \<Rightarrow> string list" where
  "split_on sep [] = [[]]"
| "split_on sep (x # xs) =
     (if x = sep then [] # split_on sep xs
      else (case split_on sep xs of
              [] \<Rightarrow> [[x]]
            | p # ps \<Rightarrow> (x # p) # ps))"

text \<open>
  Modelled from the spec: \<^verbatim>\<open>internal::SplitAbstractPath\<close> (\<^verbatim>\<open>path_util\<close>, not in the
  sources at hand): the relative path "split into segments on every separator"; an empty
  relative path has no segments.
\<close>

definition SplitAbstractPath :: "string \<Rightarrow> string list" where
  "SplitAbstractPath path = (if path = [] then [] else split_on kSep path)"

text \<open>
  Modelled from the spec: \<^verbatim>\<open>internal::JoinAbstractPath\<close> (\<^verbatim>\<open>path_util\<close>, not in the
  sources at hand): "rejoins remaining segments", with the separator between them.
\<close>

fun JoinAbstractPath :: "string list \<Rightarrow> string" where
  "JoinAbstractPath [] = []"
| "JoinAbstractPath [p] = p"
| "JoinAbstractPath (p # q # ps) = p @ [kSep] @ JoinAbstractPath (q # ps)"

text \<open>
  Modelled from the spec: \<^verbatim>\<open>internal::ValidateAbstractPathParts\<close> (\<^verbatim>\<open>path_util\<close>, not in
  the sources at hand): "no segment is empty, no segment is \<^verbatim>\<open>.\<close> or \<^verbatim>\<open>..\<close>". The
  wording of its two messages is not given by the spec.
\<close>

fun ValidateAbstractPathParts :: "string list \<Rightarrow> Status" where
  "ValidateAbstractPathParts [] = None"
| "ValidateAbstractPathParts (part # parts) =
     (if part = [] then Some (Invalid ''Empty path component'')
      else if part = ''.'' \<or> part = ''..'' then
        Some (Invalid (''Reserved path component '' @ apostrophe @ part @ apostrophe))
      else ValidateAbstractPathParts parts)"

section \<open>AzurePath\<close>

record AzurePath =
  full_path :: string
  container :: string
  path_to_file :: string
  path_to_file_parts :: "string list"

definition Validate :: "AzurePath \<Rightarrow> Status" where
  "Validate path =
     (case ValidateAbstractPathParts (path_to_file_parts path) of
        Some status \<Rightarrow> Some (Invalid (message status @ '' in path '' @ full_path path))
      | None \<Rightarrow> None)"

definition FromString :: "string \<Rightarrow> error + AzurePath" where
  "FromString s =
     (if IsLikelyUri s then
        Inl (Invalid (''Expected an Azure object path of the form '' @ apostrophe
                      @ ''container/path...'' @ apostrophe @ '', got a URI: ''
                      @ apostrophe @ s @ apostrophe))
      else
        let src = RemoveTrailingSlash s;
            first_sep = find_first_of src kSep
        in if first_sep = Some 0 then
             Inl (Invalid (''Path cannot start with a separator ('' @ apostrophe @ s
                           @ apostrophe @ '')''))
           else case first_sep of
             None \<Rightarrow>
               Inr \<lparr>full_path = src, container = src, path_to_file = [],
                    path_to_file_parts = []\<rparr>
           | Some i \<Rightarrow>
               let path = \<lparr>full_path = src,
                           container = take i src,
                           path_to_file = drop (i + 1) src,
                           path_to_file_parts = SplitAbstractPath (drop (i + 1) src)\<rparr>
               in case Validate path of
                    Some e \<Rightarrow> Inl e
                  | None \<Rightarrow> Inr path)"

definition has_parent :: "AzurePath \<Rightarrow> bool" where
  "has_parent p = (path_to_file p \<noteq> [])"

text \<open>
  \<^verbatim>\<open>parent()\<close> starts with \<^verbatim>\<open>DCHECK(has_parent())\<close>, which release builds compile
  away, and then calls \<^verbatim>\<open>pop_back()\<close> on the copied segments: undefined on an empty
  vector, which is \<open>None\<close> here.
\<close>

definition parent :: "AzurePath \<Rightarrow> AzurePath option" where
  "parent p =
     (if path_to_file_parts p = [] then None
      else
        let parts = butlast (path_to_file_parts p);
            joined = JoinAbstractPath parts
        in Some \<lparr>full_path = (if joined = [] then container p
                                else container p @ [kSep] @ joined),
                 container = container p,
                 path_to_file = joined,
                 path_to_file_parts = parts\<rparr>)"

definition empty_path :: "AzurePath \<Rightarrow> bool" where
  "empty_path p = (container p = [] \<and> path_to_file p = [])"

text \<open>\<^verbatim>\<open>AzurePath::operator==\<close>.\<close>

definition path_equals :: "AzurePath \<Rightarrow> AzurePath \<Rightarrow> bool" where
  "path_equals p other = (container p = container other \<and> path_to_file p = path_to_file other)"

text \<open>Errors raised locally for addresses that cannot name a file.\<close>

definition ValidateFilePath :: "AzurePath \<Rightarrow> Status" where
  "ValidateFilePath p =
     (if container p = [] then Some (PathNotFound (full_path p))
      else if path_to_file p = [] then Some (NotAFile (full_path p))
      else None)"

section \<open>The store client\<close>

text \<open>
  \<^verbatim>\<open>int64_t\<close> is a 64-bit word read as two's complement: comparisons are the signed
  ones (\<open><s\<close>, \<open>\<le>s\<close>), addition and subtraction wrap.
\<close>

type_synonym int64 = "64 word"

text \<open>
  Modelled from the spec: \<^verbatim>\<open>kNoSize\<close> (declared with \<^verbatim>\<open>FileInfo\<close>, not in the sources
  at hand), the "\<^verbatim>\<open>-1\<close>/sentinel until known".
\<close>

definition kNoSize :: int64 where
  "kNoSize = - 1"

text \<open>\<^verbatim>\<open>std::min\<close> on \<^verbatim>\<open>int64_t\<close>: the second argument when it is smaller.\<close>

definition std_min :: "int64 \<Rightarrow> int64 \<Rightarrow> int64" where
  "std_min a b = (if b <s a then b else a)"

text \<open>\<^verbatim>\<open>std::to_string\<close> on \<^verbatim>\<open>int64_t\<close>: the decimal digits, after a minus sign
  for a negative value.\<close>

definition digit_char :: "nat \<Rightarrow> char" where
  "digit_char d = char_of (of_char (CHR ''0'') + d)"

fun decimal :: "nat \<Rightarrow> string" where
  "decimal n =
     (if n div 10 = 0 then [digit_char n]
      else decimal (n div 10) @ [digit_char (n mod 10)])"

definition to_string :: "int64 \<Rightarrow> string" where
  "to_string x =
     (if sint x < 0 then CHR ''-'' # decimal (nat (- sint x))
      else decimal (nat (sint x)))"

text \<open>
  The store SDK is outside the repository. A blob client is what the handle sees of it:
  its URL, the answer to a property fetch, and the answer to a ranged download, which
  is the \<^verbatim>\<open>ContentRange.Length\<close> reported for an offset and a length. Both calls
  either throw a \<^verbatim>\<open>StorageException\<close> or return.
\<close>

type_synonym HttpStatusCode = nat

definition HttpStatusCode_NotFound :: HttpStatusCode where
  "HttpStatusCode_NotFound = 404"

record StorageException =
  StatusCode :: HttpStatusCode
  what :: string

record BlobProperties =
  BlobSize :: int64
  Metadata :: "(string \<times> string) list"

record BlobClient =
  GetUrl :: string
  GetProperties :: "StorageException + BlobProperties"
  DownloadTo :: "int64 \<Rightarrow> int64 \<Rightarrow> StorageException + int64"

text \<open>Every call that reaches the store is logged, in order.\<close>

datatype StoreCall =
    GetPropertiesCall
  | DownloadToCall int64 int64

definition ErrorToStatus :: "string \<Rightarrow> StorageException \<Rightarrow> error" where
  "ErrorToStatus prefix_str exception =
     IOError (prefix_str @ '' Azure Error: '' @ what exception)"

type_synonym KeyValueMetadata = "(string \<times> string) list"

definition Append :: "KeyValueMetadata \<Rightarrow> string \<Rightarrow> string \<Rightarrow> KeyValueMetadata" where
  "Append md key val = md @ [(key, val)]"

definition GetObjectMetadata :: "(string \<times> string) list \<Rightarrow> KeyValueMetadata" where
  "GetObjectMetadata result = foldl (\<lambda>md prop. Append md (fst prop) (snd prop)) [] result"

section \<open>ObjectInputFile\<close>

text \<open>
  The members of the class, without the I/O context (it only supplies the memory pool).
  \<^verbatim>\<open>blob_client_\<close> and \<^verbatim>\<open>metadata_\<close> are shared pointers, \<open>None\<close> when null. The
  accessor \<open>closed\<close> is also the method \<^verbatim>\<open>closed()\<close>.
\<close>

record ObjectInputFile =
  blob_client :: "BlobClient option"
  path :: AzurePath
  closed :: bool
  pos :: int64
  content_length :: int64
  metadata :: "KeyValueMetadata option"

text \<open>The constructor; \<^verbatim>\<open>size\<close> defaults to \<^verbatim>\<open>kNoSize\<close>.\<close>

definition new_ObjectInputFile :: "BlobClient option \<Rightarrow> AzurePath \<Rightarrow> int64 \<Rightarrow> ObjectInputFile" where
  "new_ObjectInputFile client p size_arg =
     \<lparr>blob_client = client, path = p, closed = False, pos = 0,
      content_length = size_arg, metadata = None\<rparr>"

text \<open>
  Operations return their result, the handle after the call when they can change it, and
  the store calls they made. The \<^verbatim>\<open>DCHECK\<close>s of the source are compiled away in release
  builds and are not modelled.
\<close>

definition Init :: "ObjectInputFile \<Rightarrow> Status \<times> ObjectInputFile \<times> StoreCall list" where
  "Init h =
     (if content_length h \<noteq> kNoSize then (None, h, [])
      else case blob_client h of
        None \<Rightarrow> (Some NullDereference, h, [])
      | Some client \<Rightarrow>
          (case GetProperties client of
             Inr properties \<Rightarrow>
               (None,
                h\<lparr>content_length := BlobSize properties,
                  metadata := Some (GetObjectMetadata (Metadata properties))\<rparr>,
                [GetPropertiesCall])
           | Inl exception \<Rightarrow>
               if StatusCode exception = HttpStatusCode_NotFound then
                 (Some (PathNotFound (full_path (path h))), h, [GetPropertiesCall])
               else
                 (Some (ErrorToStatus
                         (''When fetching properties for '' @ apostrophe @ GetUrl client
                          @ apostrophe @ '': '') exception),
                  h, [GetPropertiesCall])))"

definition CheckClosed :: "ObjectInputFile \<Rightarrow> string \<Rightarrow> Status" where
  "CheckClosed h action =
     (if closed h then Some (Invalid (''Cannot '' @ action @ '' on closed file.''))
      else None)"

definition CheckPosition :: "ObjectInputFile \<Rightarrow> int64 \<Rightarrow> string \<Rightarrow> Status" where
  "CheckPosition h position action =
     (if position <s 0 then Some (Invalid (''Cannot '' @ action @ '' from negative position''))
      else if content_length h <s position then
        Some (IOError (''Cannot '' @ action @ '' past end of file''))
      else None)"

definition ReadMetadata :: "ObjectInputFile \<Rightarrow> error + KeyValueMetadata option" where
  "ReadMetadata h = Inr (metadata h)"

text \<open>The future returned is already finished with the cached value.\<close>

definition ReadMetadataAsync :: "ObjectInputFile \<Rightarrow> error + KeyValueMetadata option" where
  "ReadMetadataAsync h = Inr (metadata h)"

definition Close :: "ObjectInputFile \<Rightarrow> Status \<times> ObjectInputFile" where
  "Close h = (None, h\<lparr>blob_client := None, closed := True\<rparr>)"

definition Tell :: "ObjectInputFile \<Rightarrow> error + int64" where
  "Tell h = (case CheckClosed h ''tell'' of Some e \<Rightarrow> Inl e | None \<Rightarrow> Inr (pos h))"

definition GetSize :: "ObjectInputFile \<Rightarrow> error + int64" where
  "GetSize h = (case CheckClosed h ''size'' of Some e \<Rightarrow> Inl e | None \<Rightarrow> Inr (content_length h))"

definition Seek :: "ObjectInputFile \<Rightarrow> int64 \<Rightarrow> Status \<times> ObjectInputFile" where
  "Seek h position =
     (case CheckClosed h ''seek'' of
        Some e \<Rightarrow> (Some e, h)
      | None \<Rightarrow>
          (case CheckPosition h position ''seek'' of
             Some e \<Rightarrow> (Some e, h)
           | None \<Rightarrow> (None, h\<lparr>pos := position\<rparr>)))"

text \<open>\<^verbatim>\<open>ReadAt(position, nbytes, out)\<close>: the bytes go to the caller's memory; the
  handle itself is not changed.\<close>

definition ReadAt :: "ObjectInputFile \<Rightarrow> int64 \<Rightarrow> int64 \<Rightarrow> (error + int64) \<times> StoreCall list" where
  "ReadAt h position nbytes =
     (case CheckClosed h ''read'' of
        Some e \<Rightarrow> (Inl e, [])
      | None \<Rightarrow>
          (case CheckPosition h position ''read'' of
             Some e \<Rightarrow> (Inl e, [])
           | None \<Rightarrow>
               let nbytes = std_min nbytes (content_length h - position)
               in if nbytes = 0 then (Inr 0, [])
                  else case blob_client h of
                    None \<Rightarrow> (Inl NullDereference, [])
                  | Some client \<Rightarrow>
                      (case DownloadTo client position nbytes of
                         Inr len \<Rightarrow> (Inr len, [DownloadToCall position nbytes])
                       | Inl exception \<Rightarrow>
                           (Inl (ErrorToStatus
                                  (''When reading from '' @ apostrophe @ GetUrl client
                                   @ apostrophe @ '' at position '' @ to_string position
                                   @ '' for '' @ to_string nbytes @ '' bytes: '') exception),
                            [DownloadToCall position nbytes]))))"

text \<open>
  Modelled from the spec: \<^verbatim>\<open>Buffer\<close> (Arrow's memory module, not in the sources at
  hand). Of a buffer only its size, \<^verbatim>\<open>size()\<close>, is kept.
\<close>

record Buffer =
  size_buffer :: int64

text \<open>
  Modelled from the spec: \<^verbatim>\<open>AllocateResizableBuffer\<close> (Arrow's memory module, not in
  the sources at hand): "allocates a buffer of the clamped size". A size below zero is
  refused; running out of memory is not modelled.
\<close>

definition AllocateResizableBuffer :: "int64 \<Rightarrow> error + Buffer" where
  "AllocateResizableBuffer n =
     (if n <s 0 then Inl (Invalid (''Negative buffer resize: '' @ to_string n))
      else Inr \<lparr>size_buffer = n\<rparr>)"

text \<open>
  Modelled from the spec: \<^verbatim>\<open>Buffer::Resize\<close> (Arrow's memory module, not in the sources
  at hand): "resizes the buffer down to the actual bytes delivered". A size below zero is
  refused.
\<close>

definition Resize :: "Buffer \<Rightarrow> int64 \<Rightarrow> error + Buffer" where
  "Resize b n =
     (if n <s 0 then Inl (Invalid (''Negative buffer resize: '' @ to_string n))
      else Inr (b\<lparr>size_buffer := n\<rparr>))"

text \<open>\<^verbatim>\<open>ReadAt(position, nbytes)\<close> returning a buffer.\<close>

definition ReadAt_buffer :: "ObjectInputFile \<Rightarrow> int64 \<Rightarrow> int64 \<Rightarrow> (error + Buffer) \<times> StoreCall list" where
  "ReadAt_buffer h position nbytes =
     (case CheckClosed h ''read'' of
        Some e \<Rightarrow> (Inl e, [])
      | None \<Rightarrow>
          (case CheckPosition h position ''read'' of
             Some e \<Rightarrow> (Inl e, [])
           | None \<Rightarrow>
               let nbytes = std_min nbytes (content_length h - position)
               in case AllocateResizableBuffer nbytes of
                    Inl e \<Rightarrow> (Inl e, [])
                  | Inr buffer \<Rightarrow>
                      if 0 <s nbytes then
                        (case ReadAt h position nbytes of
                           (Inl e, calls) \<Rightarrow> (Inl e, calls)
                         | (Inr bytes_read, calls) \<Rightarrow>
                             (case Resize buffer bytes_read of
                                Inl e \<Rightarrow> (Inl e, calls)
                              | Inr resized \<Rightarrow> (Inr resized, calls)))
                      else (Inr buffer, [])))"

text \<open>\<^verbatim>\<open>Read(nbytes, out)\<close> and \<^verbatim>\<open>Read(nbytes)\<close>: the stateful reads.\<close>

definition Read :: "ObjectInputFile \<Rightarrow> int64 \<Rightarrow> (error + int64) \<times> ObjectInputFile \<times> StoreCall list" where
  "Read h nbytes =
     (case ReadAt h (pos h) nbytes of
        (Inl e, calls) \<Rightarrow> (Inl e, h, calls)
      | (Inr bytes_read, calls) \<Rightarrow> (Inr bytes_read, h\<lparr>pos := pos h + bytes_read\<rparr>, calls))"

definition Read_buffer :: "ObjectInputFile \<Rightarrow> int64 \<Rightarrow> (error + Buffer) \<times> ObjectInputFile \<times> StoreCall list" where
  "Read_buffer h nbytes =
     (case ReadAt_buffer h (pos h) nbytes of
        (Inl e, calls) \<Rightarrow> (Inl e, h, calls)
      | (Inr buffer, calls) \<Rightarrow> (Inr buffer, h\<lparr>pos := pos h + size_buffer buffer\<rparr>, calls))"

section \<open>AzureOptions\<close>

text \<open>
  Modelled from the spec: the enumeration \<^verbatim>\<open>AzureBackend\<close> (declared in
  \<^verbatim>\<open>azurefs.h\<close>, not in the sources at hand): a real backend or "a local emulator".
  The source names \<^verbatim>\<open>Azurite\<close>.
\<close>

datatype AzureBackend = Azure | Azurite

text \<open>
  Modelled from the spec: the enumeration \<^verbatim>\<open>AzureCredentialsKind\<close> (declared in
  \<^verbatim>\<open>azurefs.h\<close>, not in the sources at hand): the credential kinds "shared-key,
  default-identity, managed-identity, service-principal". The source names
  \<^verbatim>\<open>StorageCredentials\<close>, the shared-key kind.
\<close>

datatype AzureCredentialsKind =
    StorageCredentials
  | DefaultCredentials
  | ManagedIdentity
  | ServicePrincipal

text \<open>The SDK's shared-key credential: the secret material.\<close>

record StorageSharedKeyCredential =
  AccountName :: string
  AccountKey :: string

record AzureOptions =
  backend :: AzureBackend
  account_dfs_url :: string
  account_blob_url :: string
  credentials_kind :: AzureCredentialsKind
  storage_credentials_provider :: "StorageSharedKeyCredential option"

definition Equals :: "AzureOptions \<Rightarrow> AzureOptions \<Rightarrow> bool" where
  "Equals opts other =
     (account_dfs_url opts = account_dfs_url other \<and>
      account_blob_url opts = account_blob_url other \<and>
      credentials_kind opts = credentials_kind other)"

definition ConfigureAccountKeyCredentials ::
    "AzureOptions \<Rightarrow> string \<Rightarrow> string \<Rightarrow> Status \<times> AzureOptions" where
  "ConfigureAccountKeyCredentials opts account_name account_key =
     (let opts1 =
            (if backend opts = Azurite then
               opts\<lparr>account_blob_url := ''http://127.0.0.1:10000/'' @ account_name @ ''/'',
                    account_dfs_url := ''http://127.0.0.1:10000/'' @ account_name @ ''/''\<rparr>
             else
               opts\<lparr>account_dfs_url := ''https://'' @ account_name @ ''.dfs.core.windows.net/'',
                    account_blob_url := ''https://'' @ account_name @ ''.blob.core.windows.net/''\<rparr>)
      in (None,
          opts1\<lparr>storage_credentials_provider :=
                   Some \<lparr>AccountName = account_name, AccountKey = account_key\<rparr>,
                 credentials_kind := StorageCredentials\<rparr>))"

section \<open>AzureFileSystem::Impl\<close>

text \<open>
  The service client is the store as the filesystem sees it:
  \<^verbatim>\<open>GetBlobContainerClient(container).GetBlobClient(name)\<close> builds a blob client
  without contacting the store.
\<close>

record Impl =
  service_client :: "string \<Rightarrow> string \<Rightarrow> BlobClient"
  options :: AzureOptions

text \<open>
  \<^verbatim>\<open>internal::AssertNoTrailingSlash\<close> is a path utility that is not in the sources at
  hand and that the spec does not describe: it is a parameter, a local check of the
  string that makes no store call.
\<close>

definition OpenInputFile ::
    "(string \<Rightarrow> Status) \<Rightarrow> Impl \<Rightarrow> string \<Rightarrow> (error + ObjectInputFile) \<times> StoreCall list" where
  "OpenInputFile AssertNoTrailingSlash impl s =
     (case AssertNoTrailingSlash s of
        Some e \<Rightarrow> (Inl e, [])
      | None \<Rightarrow>
          (case FromString s of
             Inl e \<Rightarrow> (Inl e, [])
           | Inr p \<Rightarrow>
               (case ValidateFilePath p of
                  Some e \<Rightarrow> (Inl e, [])
                | None \<Rightarrow>
                    let client = service_client impl (container p) (path_to_file p);
                        ptr = new_ObjectInputFile (Some client) p kNoSize
                    in case Init ptr of
                         (Some e, ptr1, calls) \<Rightarrow> (Inl e, calls)
                       | (None, ptr1, calls) \<Rightarrow> (Inr ptr1, calls))))"

text \<open>
  Modelled from the spec: \<^verbatim>\<open>FileType\<close> (declared in \<^verbatim>\<open>filesystem.h\<close>, not in the
  sources at hand): the types a file-info record reports. The source names
  \<^verbatim>\<open>NotFound\<close>, \<^verbatim>\<open>File\<close> and \<^verbatim>\<open>Unknown\<close>.
\<close>

datatype FileType = NotFound | Unknown | File | Directory

text \<open>
  Modelled from the spec: \<^verbatim>\<open>FileInfo\<close> (declared in \<^verbatim>\<open>filesystem.h\<close>, not in the
  sources at hand): the "file-info record", with its path, its type and its reported
  size.
\<close>

record FileInfo =
  info_path :: string
  info_type :: FileType
  info_size :: int64

definition OpenInputFile_info ::
    "(string \<Rightarrow> Status) \<Rightarrow> Impl \<Rightarrow> FileInfo \<Rightarrow> (error + ObjectInputFile) \<times> StoreCall list" where
  "OpenInputFile_info AssertNoTrailingSlash impl info =
     (case AssertNoTrailingSlash (info_path info) of
        Some e \<Rightarrow> (Inl e, [])
      | None \<Rightarrow>
          if info_type info = NotFound then (Inl (PathNotFound (info_path info)), [])
          else if info_type info \<noteq> File \<and> info_type info \<noteq> Unknown then
            (Inl (NotAFile (info_path info)), [])
          else
            (case FromString (info_path info) of
               Inl e \<Rightarrow> (Inl e, [])
             | Inr p \<Rightarrow>
                 (case ValidateFilePath p of
                    Some e \<Rightarrow> (Inl e, [])
                  | None \<Rightarrow>
                      let client = service_client impl (container p) (path_to_file p);
                          ptr = new_ObjectInputFile (Some client) p (info_size info)
                      in case Init ptr of
                           (Some e, ptr1, calls) \<Rightarrow> (Inl e, calls)
                         | (None, ptr1, calls) \<Rightarrow> (Inr ptr1, calls))))"

section \<open>A sample store\<close>

text \<open>
  The blob of the repository's test \<^verbatim>\<open>UploadThenDownload\<close>: container
  \<^verbatim>\<open>sample-container\<close>, blob \<^verbatim>\<open>sample-blob.txt\<close>, content \<^verbatim>\<open>Hello Azure!\<close>
  (12 bytes) on the emulator. It serves the part of a requested range that lies inside
  the blob, and answers "not found" (404) for any other blob.
\<close>

definition sample_url :: string where
  "sample_url = ''http://127.0.0.1:10000/devstoreaccount1/sample-container/sample-blob.txt''"

definition sample_blob_client :: BlobClient where
  "sample_blob_client =
     \<lparr>GetUrl = sample_url,
      GetProperties = Inr \<lparr>BlobSize = 12, Metadata = [(''origin'', ''test'')]\<rparr>,
      DownloadTo = (\<lambda>offset len. Inr (std_min len (12 - offset)))\<rparr>"

definition missing_blob_client :: BlobClient where
  "missing_blob_client =
     \<lparr>GetUrl = ''http://127.0.0.1:10000/devstoreaccount1/other'',
      GetProperties = Inl \<lparr>StatusCode = 404, what = ''The specified blob does not exist.''\<rparr>,
      DownloadTo = (\<lambda>offset len.
        Inl \<lparr>StatusCode = 404, what = ''The specified blob does not exist.''\<rparr>)\<rparr>"

definition sample_impl :: Impl where
  "sample_impl =
     \<lparr>service_client = (\<lambda>c b.
        if c = ''sample-container'' \<and> b = ''sample-blob.txt'' then sample_blob_client
        else missing_blob_client),
      options = \<lparr>backend = Azurite,
                 account_dfs_url = ''http://127.0.0.1:10000/devstoreaccount1/'',
                 account_blob_url = ''http://127.0.0.1:10000/devstoreaccount1/'',
                 credentials_kind = StorageCredentials,
                 storage_credentials_provider = None\<rparr>\<rparr>"

definition sample_path :: AzurePath where
  "sample_path =
     \<lparr>full_path = ''sample-container/sample-blob.txt'',
      container = ''sample-container'',
      path_to_file = ''sample-blob.txt'',
      path_to_file_parts = [''sample-blob.txt'']\<rparr>"

text \<open>The handle that opening the sample blob gives: initialized, length 12, cursor 0.\<close>

definition sample_file :: ObjectInputFile where
  "sample_file =
     \<lparr>blob_client = Some sample_blob_client, path = sample_path, closed = False, pos = 0,
      content_length = 12, metadata = Some [(''origin'', ''test'')]\<rparr>"

text \<open>A store that delivers at most three bytes per ranged download: every longer read
  is a short read.\<close>

definition short_blob_client :: BlobClient where
  "short_blob_client =
     sample_blob_client\<lparr>DownloadTo := (\<lambda>offset len. Inr (std_min 3 (std_min len (12 - offset))))\<rparr>"

section \<open>Signed arithmetic of positions and counts\<close>

lemma sint_sub_in_range:
  fixes L p :: int64
  assumes "0 \<le> sint p" "sint p \<le> sint L"
  shows "sint (L - p) = sint L - sint p"
proof -
  have "sint L < 2 ^ 63" using sint_lt [of L] by simp
  moreover have "- (2 ^ 63) \<le> sint L" using sint_ge [of L] by simp
  ultimately have "- (2 ^ 63) \<le> sint L - sint p" "sint L - sint p < 2 ^ 63"
    using assms by linarith+
  then show ?thesis
    by (simp add: sint_word_ariths signed_take_bit_int_eq_self)
qed

lemma sint_std_min: "sint (std_min a b) = min (sint a) (sint b)"
  by (simp add: std_min_def word_sless_alt min_def)

lemma std_min_idem: "std_min (std_min a b) b = std_min a b"
  by (simp add: std_min_def)

lemma CheckPosition_ok:
  "0 \<le> sint position \<Longrightarrow> sint position \<le> sint (content_length h) \<Longrightarrow>
   CheckPosition h position action = None"
  by (simp add: CheckPosition_def word_sless_alt)

section \<open>Facts about the string helpers\<close>

lemma find_first_of_None_iff: "find_first_of s c = None \<longleftrightarrow> c \<notin> set s"
  by (induction s) auto

lemma find_first_of_append_found:
  "c \<notin> set xs \<Longrightarrow> find_first_of (xs @ c # ys) c = Some (length xs)"
  by (induction xs) auto

lemma find_first_of_Some_less: "find_first_of s c = Some i \<Longrightarrow> i < length s"
  by (induction s arbitrary: i) (auto split: if_splits)

lemma find_first_of_append_tail:
  "c \<notin> set t \<Longrightarrow> find_first_of (u @ t) c = find_first_of u c"
  by (induction u) (auto simp add: find_first_of_None_iff)

lemma RemoveTrailingSlash_decomp:
  "\<exists>t. s = RemoveTrailingSlash s @ t \<and> set t \<subseteq> {kSep}"
proof -
  have "rev s = takeWhile (\<lambda>c. c = kSep) (rev s) @ dropWhile (\<lambda>c. c = kSep) (rev s)"
    by simp
  then have "s = rev (dropWhile (\<lambda>c. c = kSep) (rev s)) @ rev (takeWhile (\<lambda>c. c = kSep) (rev s))"
    by (metis rev_append rev_rev_ident)
  moreover have "set (rev (takeWhile (\<lambda>c. c = kSep) (rev s))) \<subseteq> {kSep}"
    by (auto dest: set_takeWhileD)
  ultimately show ?thesis
    unfolding RemoveTrailingSlash_def by blast
qed

lemma RemoveTrailingSlash_idem:
  "RemoveTrailingSlash (RemoveTrailingSlash s) = RemoveTrailingSlash s"
  by (simp add: RemoveTrailingSlash_def)

lemma RemoveTrailingSlash_id:
  "s = [] \<or> last s \<noteq> kSep \<Longrightarrow> RemoveTrailingSlash s = s"
  by (cases s rule: rev_cases) (auto simp add: RemoveTrailingSlash_def)

lemma IsLikelyUri_append_seps:
  assumes "set t \<subseteq> {kSep}"
  shows "IsLikelyUri (u @ t) = IsLikelyUri u"
proof -
  have "CHR '':'' \<notin> set t" using assms by (auto simp add: kSep_def)
  then have f: "find_first_of (u @ t) (CHR '':'') = find_first_of u (CHR '':'')"
    by (rule find_first_of_append_tail)
  show ?thesis
    unfolding IsLikelyUri_def f
    by (auto split: option.splits dest: find_first_of_Some_less)
qed

lemma IsLikelyUri_RemoveTrailingSlash:
  "IsLikelyUri (RemoveTrailingSlash s) = IsLikelyUri s"
proof -
  obtain t where "s = RemoveTrailingSlash s @ t" "set t \<subseteq> {kSep}"
    using RemoveTrailingSlash_decomp by blast
  then show ?thesis using IsLikelyUri_append_seps by metis
qed

lemma FromString_Inr_cong:
  assumes "FromString s = Inr a" "IsLikelyUri s' = IsLikelyUri s"
    "RemoveTrailingSlash s' = RemoveTrailingSlash s"
  shows "FromString s' = Inr a"
  using assms
  by (auto simp add: FromString_def Let_def split: if_splits option.splits)

lemma FromString_full_path:
  "FromString s = Inr a \<Longrightarrow> full_path a = RemoveTrailingSlash s"
  by (auto simp add: FromString_def Let_def split: if_splits option.splits)

lemma split_on_no_sep: "sep \<notin> set b \<Longrightarrow> split_on sep b = [b]"
  by (induction b) auto

lemma split_on_append:
  "sep \<notin> set a \<Longrightarrow> split_on sep (a @ sep # b) = a # split_on sep b"
  by (induction a) auto

lemma FromString_no_sep:
  assumes "kSep \<notin> set s" "\<not> IsLikelyUri s"
  shows "FromString s = Inr \<lparr>full_path = s, container = s, path_to_file = [],
                            path_to_file_parts = []\<rparr>"
proof -
  have "s = [] \<or> last s \<noteq> kSep" using assms(1) by (cases s rule: rev_cases) auto
  then have r: "RemoveTrailingSlash s = s" by (rule RemoveTrailingSlash_id)
  have f: "find_first_of s kSep = None" using assms(1) by (simp add: find_first_of_None_iff)
  show ?thesis using assms(2) by (simp add: FromString_def r f)
qed

lemma FromString_examples:
  "FromString [] = Inr \<lparr>full_path = [], container = [], path_to_file = [], path_to_file_parts = []\<rparr>"
  "FromString ''sample-container'' =
     Inr \<lparr>full_path = ''sample-container'', container = ''sample-container'',
          path_to_file = [], path_to_file_parts = []\<rparr>"
  "FromString ''sample-container/sample-blob.txt'' = Inr sample_path"
  by (simp_all add: FromString_def IsLikelyUri_def RemoveTrailingSlash_def kSep_def
      SplitAbstractPath_def Validate_def sample_path_def Let_def)

section \<open>Facts about the reads\<close>

lemma ReadAt_buffer_Inr:
  assumes "ReadAt_buffer h p n = (Inr buf, calls)"
  shows "ReadAt h p n = (Inr (size_buffer buf), calls)"
proof -
  let ?m = "std_min n (content_length h - p)"
  from assms have c: "CheckClosed h ''read'' = None" "CheckPosition h p ''read'' = None"
    by (auto simp add: ReadAt_buffer_def split: option.splits)
  from assms c have a: "\<not> ?m <s 0"
    by (auto simp add: ReadAt_buffer_def AllocateResizableBuffer_def Let_def split: if_splits)
  show ?thesis
  proof (cases "0 <s ?m")
    case True
    then have nz: "?m \<noteq> 0" by auto
    have inner: "ReadAt h p ?m = ReadAt h p n"
      using c by (simp add: ReadAt_def Let_def std_min_idem)
    from assms c a True show ?thesis
      unfolding inner [symmetric]
      by (auto simp add: ReadAt_buffer_def AllocateResizableBuffer_def Resize_def Let_def
          split: if_splits sum.splits prod.splits)
  next
    case False
    with a have z: "?m = 0"
      by (metis signed.antisym_conv3)
    from assms c z show ?thesis
      by (auto simp add: ReadAt_buffer_def ReadAt_def AllocateResizableBuffer_def Let_def)
  qed
qed

lemma ReadAt_calls:
  "snd (ReadAt h p n) = [] \<or> (\<exists>m. snd (ReadAt h p n) = [DownloadToCall p m])"
  by (auto simp add: ReadAt_def Let_def split: option.splits sum.splits)

lemma ReadAt_buffer_calls:
  "snd (ReadAt_buffer h p n) = [] \<or> (\<exists>m. snd (ReadAt_buffer h p n) = [DownloadToCall p m])"
  using ReadAt_calls [of h p "std_min n (content_length h - p)"]
  by (auto simp add: ReadAt_buffer_def Let_def split: option.splits sum.splits prod.splits)

lemma ReadAt_Inr_checks:
  assumes "ReadAt h p n = (Inr k, calls)"
  shows "CheckClosed h ''read'' = None \<and> CheckPosition h p ''read'' = None"
  using assms by (auto simp add: ReadAt_def split: option.splits)

lemma clamp_nonneg:
  assumes "CheckPosition h p ''read'' = None" "0 \<le> sint n"
  shows "\<not> std_min n (content_length h - p) <s 0"
proof -
  from assms(1) have "0 \<le> sint p" "sint p \<le> sint (content_length h)"
    by (auto simp add: CheckPosition_def word_sless_alt split: if_splits)
  then have "sint (content_length h - p) = sint (content_length h) - sint p"
    by (rule sint_sub_in_range)
  with \<open>sint p \<le> sint (content_length h)\<close> assms(2) show ?thesis
    by (simp add: word_sless_alt sint_std_min)
qed

lemma ReadAt_buffer_of_ReadAt:
  assumes n: "0 \<le> sint n"
  shows "ReadAt_buffer h p n =
           (case ReadAt h p n of
              (Inl e, calls) \<Rightarrow> (Inl e, calls)
            | (Inr k, calls) \<Rightarrow>
                (case Resize \<lparr>size_buffer = std_min n (content_length h - p)\<rparr> k of
                   Inl e \<Rightarrow> (Inl e, calls)
                 | Inr resized \<Rightarrow> (Inr resized, calls)))"
proof (cases "CheckClosed h ''read''")
  case (Some e)
  then show ?thesis by (simp add: ReadAt_buffer_def ReadAt_def)
next
  case None
  note c = this
  show ?thesis
  proof (cases "CheckPosition h p ''read''")
    case (Some e)
    with c show ?thesis by (simp add: ReadAt_buffer_def ReadAt_def)
  next
    case None
    let ?m = "std_min n (content_length h - p)"
    have a: "\<not> ?m <s 0" using None n by (rule clamp_nonneg)
    show ?thesis
    proof (cases "0 <s ?m")
      case True
      have inner: "ReadAt h p ?m = ReadAt h p n"
        using c None by (simp add: ReadAt_def Let_def std_min_idem)
      from c None a True show ?thesis
        unfolding inner [symmetric]
        by (simp add: ReadAt_buffer_def AllocateResizableBuffer_def Let_def inner
            split: prod.splits sum.splits)
    next
      case False
      with a have z: "?m = 0" by (metis signed.antisym_conv3)
      from c None z show ?thesis
        by (simp add: ReadAt_buffer_def ReadAt_def AllocateResizableBuffer_def Resize_def Let_def)
    qed
  qed
qed

section \<open>The claims\<close>

text \<open>
  C1. On a handle that is not closed, with content length \<open>L\<close>, and a position \<open>p\<close>
  with \<open>0 \<le> p \<le> L\<close>, \<^verbatim>\<open>ReadAt(p, n, out)\<close> clamps the count to \<open>min n (L - p)\<close>
  (computed without overflow, so the range asked for never passes \<open>L\<close>); a clamped
  count of 0 returns 0 with no store call; every store call made is the one ranged
  download of the clamped count at \<open>p\<close>, and the result is the length the store reports
  for it. With \<open>L = 12\<close>, \<^verbatim>\<open>ReadAt(10, 100, out)\<close> asks the store for 2 bytes and, the
  store delivering them, returns 2.
\<close>

theorem ReadAt_clamps:
  assumes "\<not> closed h" "0 \<le> sint position" "sint position \<le> sint (content_length h)"
  shows "sint (std_min nbytes (content_length h - position)) =
           min (sint nbytes) (sint (content_length h) - sint position) \<and>
         sint position + sint (std_min nbytes (content_length h - position)) \<le> sint (content_length h) \<and>
         (std_min nbytes (content_length h - position) = 0 \<longrightarrow>
            ReadAt h position nbytes = (Inr 0, [])) \<and>
         set (snd (ReadAt h position nbytes)) \<subseteq>
           {DownloadToCall position (std_min nbytes (content_length h - position))} \<and>
         (\<forall>client. std_min nbytes (content_length h - position) \<noteq> 0 \<and> blob_client h = Some client \<longrightarrow>
            snd (ReadAt h position nbytes) =
              [DownloadToCall position (std_min nbytes (content_length h - position))] \<and>
            (\<forall>len. DownloadTo client position (std_min nbytes (content_length h - position)) = Inr len
               \<longrightarrow> fst (ReadAt h position nbytes) = Inr len)) \<and>
         (\<forall>client. content_length h = 12 \<and> position = 10 \<and> nbytes = 100 \<and>
            blob_client h = Some client \<and> DownloadTo client 10 2 = Inr 2 \<longrightarrow>
            ReadAt h position nbytes = (Inr 2, [DownloadToCall 10 2]))"
proof -
  have ok: "CheckClosed h ''read'' = None" "CheckPosition h position ''read'' = None"
    using assms by (simp_all add: CheckClosed_def CheckPosition_ok)
  have m: "sint (std_min nbytes (content_length h - position)) =
           min (sint nbytes) (sint (content_length h) - sint position)"
    using assms by (simp add: sint_std_min sint_sub_in_range)
  have bound: "sint position + sint (std_min nbytes (content_length h - position)) \<le> sint (content_length h)"
    unfolding m by simp
  have zero: "std_min nbytes (content_length h - position) = 0 \<longrightarrow>
            ReadAt h position nbytes = (Inr 0, [])"
    using ok by (simp add: ReadAt_def)
  have only: "set (snd (ReadAt h position nbytes)) \<subseteq>
           {DownloadToCall position (std_min nbytes (content_length h - position))}"
    using ok by (auto simp add: ReadAt_def Let_def split: option.splits sum.splits)
  have fetch: "\<forall>client. std_min nbytes (content_length h - position) \<noteq> 0 \<and> blob_client h = Some client \<longrightarrow>
            snd (ReadAt h position nbytes) =
              [DownloadToCall position (std_min nbytes (content_length h - position))] \<and>
            (\<forall>len. DownloadTo client position (std_min nbytes (content_length h - position)) = Inr len
               \<longrightarrow> fst (ReadAt h position nbytes) = Inr len)"
    using ok by (auto simp add: ReadAt_def Let_def split: sum.splits)
  have twelve: "\<forall>client. content_length h = 12 \<and> position = 10 \<and> nbytes = 100 \<and>
            blob_client h = Some client \<and> DownloadTo client 10 2 = Inr 2 \<longrightarrow>
            ReadAt h position nbytes = (Inr 2, [DownloadToCall 10 2])"
  proof (intro allI impI)
    fix client
    assume a: "content_length h = 12 \<and> position = 10 \<and> nbytes = 100 \<and>
            blob_client h = Some client \<and> DownloadTo client 10 2 = Inr 2"
    have "std_min (100 :: int64) (12 - 10) = 2"
      by (simp add: std_min_def word_sless_alt)
    then show "ReadAt h position nbytes = (Inr 2, [DownloadToCall 10 2])"
      using ok a by (simp add: ReadAt_def)
  qed
  show ?thesis using m bound zero only fetch twelve by blast
qed

theorem ReadAt_clamps_witness:
  "ReadAt sample_file 10 100 = (Inr 2, [DownloadToCall 10 2]) \<and>
   ReadAt sample_file 12 100 = (Inr 0, [])"
proof -
  have h: "\<not> closed sample_file" "content_length sample_file = 12"
    "blob_client sample_file = Some sample_blob_client"
    by (simp_all add: sample_file_def)
  have d: "DownloadTo sample_blob_client 10 2 = Inr 2"
    by (simp add: sample_blob_client_def std_min_def word_sless_alt)
  have z: "std_min (100 :: int64) (12 - 12) = 0"
    by (simp add: std_min_def word_sless_alt)
  have "ReadAt sample_file 10 100 = (Inr 2, [DownloadToCall 10 2])"
    using ReadAt_clamps [of sample_file 10 100] h d by simp
  moreover have "ReadAt sample_file 12 100 = (Inr 0, [])"
    using ReadAt_clamps [of sample_file 12 100] h z by simp
  ultimately show ?thesis by simp
qed

text \<open>
  C2. \<^verbatim>\<open>Read(n, out)\<close> and \<^verbatim>\<open>Read(n)\<close> read at the cursor and move the cursor by
  the count that \<^verbatim>\<open>ReadAt\<close> delivered (the size of the returned buffer), not by \<open>n\<close>;
  a failed read leaves the handle as it was. Hence the next read fetches exactly where
  the previous one ended: no byte is skipped or read twice, also after a short read.
  In the other direction, for a count \<open>n \<ge> 0\<close>: when \<^verbatim>\<open>ReadAt\<close> at the cursor delivers
  \<open>k \<ge> 0\<close> bytes, \<^verbatim>\<open>Read(n)\<close> returns a buffer of size \<open>k\<close> and moves the cursor by
  \<open>k\<close>, with the same store calls; when \<^verbatim>\<open>ReadAt\<close> fails, \<^verbatim>\<open>Read(n)\<close> fails with the
  same error. A negative delivered count, or a negative \<open>n\<close>, makes \<^verbatim>\<open>Read(n)\<close> fail
  and leave the cursor where it was.
\<close>

theorem Read_advances_by_delivered:
  "(\<forall>k calls. ReadAt h (pos h) nbytes = (Inr k, calls) \<longrightarrow>
      Read h nbytes = (Inr k, h\<lparr>pos := pos h + k\<rparr>, calls)) \<and>
   (\<forall>e calls. ReadAt h (pos h) nbytes = (Inl e, calls) \<longrightarrow>
      Read h nbytes = (Inl e, h, calls)) \<and>
   (\<forall>buf h1 calls. Read_buffer h nbytes = (Inr buf, h1, calls) \<longrightarrow>
      ReadAt h (pos h) nbytes = (Inr (size_buffer buf), calls) \<and>
      h1 = h\<lparr>pos := pos h + size_buffer buf\<rparr>) \<and>
   (\<forall>e h1 calls. Read_buffer h nbytes = (Inl e, h1, calls) \<longrightarrow> h1 = h) \<and>
   (\<forall>k h1 calls r h2 calls2 n2.
      Read h nbytes = (Inr k, h1, calls) \<and> Read h1 n2 = (r, h2, calls2) \<longrightarrow>
      calls2 = [] \<or> (\<exists>m. calls2 = [DownloadToCall (pos h + k) m])) \<and>
   (\<forall>buf h1 calls r h2 calls2 n2.
      Read_buffer h nbytes = (Inr buf, h1, calls) \<and> Read_buffer h1 n2 = (r, h2, calls2) \<longrightarrow>
      calls2 = [] \<or> (\<exists>m. calls2 = [DownloadToCall (pos h + size_buffer buf) m])) \<and>
   (\<forall>k calls. 0 \<le> sint nbytes \<and> 0 \<le> sint k \<and> ReadAt h (pos h) nbytes = (Inr k, calls) \<longrightarrow>
      Read_buffer h nbytes = (Inr \<lparr>size_buffer = k\<rparr>, h\<lparr>pos := pos h + k\<rparr>, calls)) \<and>
   (\<forall>e calls. 0 \<le> sint nbytes \<and> ReadAt h (pos h) nbytes = (Inl e, calls) \<longrightarrow>
      Read_buffer h nbytes = (Inl e, h, calls)) \<and>
   (\<forall>k calls. 0 \<le> sint nbytes \<and> sint k < 0 \<and> ReadAt h (pos h) nbytes = (Inr k, calls) \<longrightarrow>
      (\<exists>e. Read_buffer h nbytes = (Inl e, h, calls))) \<and>
   (\<forall>k calls. sint nbytes < 0 \<and> ReadAt h (pos h) nbytes = (Inr k, calls) \<longrightarrow>
      (\<exists>e. Read_buffer h nbytes = (Inl e, h, [])))"
proof -
  have a: "\<forall>k calls. ReadAt h (pos h) nbytes = (Inr k, calls) \<longrightarrow>
      Read h nbytes = (Inr k, h\<lparr>pos := pos h + k\<rparr>, calls)"
    by (simp add: Read_def)
  have b: "\<forall>e calls. ReadAt h (pos h) nbytes = (Inl e, calls) \<longrightarrow>
      Read h nbytes = (Inl e, h, calls)"
    by (simp add: Read_def)
  have c: "\<forall>buf h1 calls. Read_buffer h nbytes = (Inr buf, h1, calls) \<longrightarrow>
      ReadAt h (pos h) nbytes = (Inr (size_buffer buf), calls) \<and>
      h1 = h\<lparr>pos := pos h + size_buffer buf\<rparr>"
    by (auto simp add: Read_buffer_def split: prod.splits sum.splits dest: ReadAt_buffer_Inr)
  have d: "\<forall>e h1 calls. Read_buffer h nbytes = (Inl e, h1, calls) \<longrightarrow> h1 = h"
    by (auto simp add: Read_buffer_def split: prod.splits sum.splits)
  have e: "\<forall>k h1 calls r h2 calls2 n2.
      Read h nbytes = (Inr k, h1, calls) \<and> Read h1 n2 = (r, h2, calls2) \<longrightarrow>
      calls2 = [] \<or> (\<exists>m. calls2 = [DownloadToCall (pos h + k) m])"
  proof (intro allI impI)
    fix k h1 calls r h2 calls2 n2
    assume as: "Read h nbytes = (Inr k, h1, calls) \<and> Read h1 n2 = (r, h2, calls2)"
    then have p: "pos h1 = pos h + k"
      by (auto simp add: Read_def split: prod.splits sum.splits)
    from as have "calls2 = snd (ReadAt h1 (pos h1) n2)"
      by (auto simp add: Read_def split: prod.splits sum.splits)
    then show "calls2 = [] \<or> (\<exists>m. calls2 = [DownloadToCall (pos h + k) m])"
      using ReadAt_calls [of h1 "pos h1" n2] p by simp
  qed
  have f: "\<forall>buf h1 calls r h2 calls2 n2.
      Read_buffer h nbytes = (Inr buf, h1, calls) \<and> Read_buffer h1 n2 = (r, h2, calls2) \<longrightarrow>
      calls2 = [] \<or> (\<exists>m. calls2 = [DownloadToCall (pos h + size_buffer buf) m])"
  proof (intro allI impI)
    fix buf h1 calls r h2 calls2 n2
    assume as: "Read_buffer h nbytes = (Inr buf, h1, calls) \<and> Read_buffer h1 n2 = (r, h2, calls2)"
    then have p: "pos h1 = pos h + size_buffer buf"
      by (auto simp add: Read_buffer_def split: prod.splits sum.splits)
    from as have "calls2 = snd (ReadAt_buffer h1 (pos h1) n2)"
      by (auto simp add: Read_buffer_def split: prod.splits sum.splits)
    then show "calls2 = [] \<or> (\<exists>m. calls2 = [DownloadToCall (pos h + size_buffer buf) m])"
      using ReadAt_buffer_calls [of h1 "pos h1" n2] p by simp
  qed
  have g: "\<forall>k calls. 0 \<le> sint nbytes \<and> 0 \<le> sint k \<and> ReadAt h (pos h) nbytes = (Inr k, calls) \<longrightarrow>
      Read_buffer h nbytes = (Inr \<lparr>size_buffer = k\<rparr>, h\<lparr>pos := pos h + k\<rparr>, calls)"
  proof (intro allI impI)
    fix k calls
    assume as: "0 \<le> sint nbytes \<and> 0 \<le> sint k \<and> ReadAt h (pos h) nbytes = (Inr k, calls)"
    then have n: "0 \<le> sint nbytes" and k: "\<not> k <s 0"
      and r: "ReadAt h (pos h) nbytes = (Inr k, calls)"
      by (simp_all add: word_sless_alt)
    have "ReadAt_buffer h (pos h) nbytes = (Inr \<lparr>size_buffer = k\<rparr>, calls)"
      unfolding ReadAt_buffer_of_ReadAt [OF n] r using k by (simp add: Resize_def)
    then show "Read_buffer h nbytes = (Inr \<lparr>size_buffer = k\<rparr>, h\<lparr>pos := pos h + k\<rparr>, calls)"
      by (simp add: Read_buffer_def)
  qed
  have i: "\<forall>e calls. 0 \<le> sint nbytes \<and> ReadAt h (pos h) nbytes = (Inl e, calls) \<longrightarrow>
      Read_buffer h nbytes = (Inl e, h, calls)"
  proof (intro allI impI)
    fix e calls
    assume as: "0 \<le> sint nbytes \<and> ReadAt h (pos h) nbytes = (Inl e, calls)"
    then have n: "0 \<le> sint nbytes" and r: "ReadAt h (pos h) nbytes = (Inl e, calls)"
      by simp_all
    have "ReadAt_buffer h (pos h) nbytes = (Inl e, calls)"
      unfolding ReadAt_buffer_of_ReadAt [OF n] r by simp
    then show "Read_buffer h nbytes = (Inl e, h, calls)"
      by (simp add: Read_buffer_def)
  qed
  have j: "\<forall>k calls. 0 \<le> sint nbytes \<and> sint k < 0 \<and> ReadAt h (pos h) nbytes = (Inr k, calls) \<longrightarrow>
      (\<exists>e. Read_buffer h nbytes = (Inl e, h, calls))"
  proof (intro allI impI)
    fix k calls
    assume as: "0 \<le> sint nbytes \<and> sint k < 0 \<and> ReadAt h (pos h) nbytes = (Inr k, calls)"
    then have n: "0 \<le> sint nbytes" and k: "k <s 0"
      and r: "ReadAt h (pos h) nbytes = (Inr k, calls)"
      by (simp_all add: word_sless_alt)
    have "\<exists>e. ReadAt_buffer h (pos h) nbytes = (Inl e, calls)"
      unfolding ReadAt_buffer_of_ReadAt [OF n] r using k by (simp add: Resize_def)
    then show "\<exists>e. Read_buffer h nbytes = (Inl e, h, calls)"
      by (auto simp add: Read_buffer_def)
  qed
  have l: "\<forall>k calls. sint nbytes < 0 \<and> ReadAt h (pos h) nbytes = (Inr k, calls) \<longrightarrow>
      (\<exists>e. Read_buffer h nbytes = (Inl e, h, []))"
  proof (intro allI impI)
    fix k calls
    assume as: "sint nbytes < 0 \<and> ReadAt h (pos h) nbytes = (Inr k, calls)"
    then have ck: "CheckClosed h ''read'' = None" "CheckPosition h (pos h) ''read'' = None"
      using ReadAt_Inr_checks by blast+
    have "sint (std_min nbytes (content_length h - pos h)) \<le> sint nbytes"
      by (simp add: sint_std_min)
    with as have "std_min nbytes (content_length h - pos h) <s 0"
      by (simp add: word_sless_alt)
    with ck show "\<exists>e. Read_buffer h nbytes = (Inl e, h, [])"
      by (simp add: Read_buffer_def ReadAt_buffer_def AllocateResizableBuffer_def Let_def)
  qed
  show ?thesis by (rule conjI a b c d e f g i j l)+
qed

theorem Read_advances_by_delivered_witness:
  "Read (sample_file\<lparr>blob_client := Some short_blob_client\<rparr>) 5 =
     (Inr 3, sample_file\<lparr>blob_client := Some short_blob_client, pos := 3\<rparr>, [DownloadToCall 0 5]) \<and>
   Read (sample_file\<lparr>blob_client := Some short_blob_client, pos := 3\<rparr>) 5 =
     (Inr 3, sample_file\<lparr>blob_client := Some short_blob_client, pos := 6\<rparr>, [DownloadToCall 3 5]) \<and>
   Read_buffer (sample_file\<lparr>blob_client := Some short_blob_client\<rparr>) 5 =
     (Inr \<lparr>size_buffer = 3\<rparr>, sample_file\<lparr>blob_client := Some short_blob_client, pos := 3\<rparr>,
      [DownloadToCall 0 5]) \<and>
   Read_buffer (sample_file\<lparr>blob_client := Some short_blob_client, pos := 3\<rparr>) 5 =
     (Inr \<lparr>size_buffer = 3\<rparr>, sample_file\<lparr>blob_client := Some short_blob_client, pos := 6\<rparr>,
      [DownloadToCall 3 5])"
proof -
  let ?h = "sample_file\<lparr>blob_client := Some short_blob_client\<rparr>"
  let ?h1 = "sample_file\<lparr>blob_client := Some short_blob_client, pos := 3\<rparr>"
  have m: "std_min (5 :: int64) 12 = 5" "std_min (3 :: int64) 5 = 3" "std_min (5 :: int64) 9 = 5"
    by (simp_all add: std_min_def word_sless_alt)
  have r0: "ReadAt ?h (pos ?h) 5 = (Inr 3, [DownloadToCall 0 5])"
    by (simp add: ReadAt_def CheckClosed_def CheckPosition_def sample_file_def word_sless_alt
        short_blob_client_def m)
  have r1: "ReadAt ?h1 (pos ?h1) 5 = (Inr 3, [DownloadToCall 3 5])"
    by (simp add: ReadAt_def CheckClosed_def CheckPosition_def sample_file_def word_sless_alt
        short_blob_client_def m)
  have "Read ?h 5 = (Inr 3, ?h1, [DownloadToCall 0 5])"
  proof -
    have "Read ?h 5 = (Inr 3, ?h\<lparr>pos := pos ?h + 3\<rparr>, [DownloadToCall 0 5])"
      by (rule Read_advances_by_delivered [of ?h 5, THEN conjunct1, rule_format, OF r0])
    then show ?thesis by (simp add: sample_file_def)
  qed
  moreover have "Read ?h1 5 = (Inr 3, sample_file\<lparr>blob_client := Some short_blob_client, pos := 6\<rparr>,
      [DownloadToCall 3 5])"
  proof -
    have "Read ?h1 5 = (Inr 3, ?h1\<lparr>pos := pos ?h1 + 3\<rparr>, [DownloadToCall 3 5])"
      by (rule Read_advances_by_delivered [of ?h1 5, THEN conjunct1, rule_format, OF r1])
    then show ?thesis by (simp add: sample_file_def)
  qed
  moreover have "Read_buffer ?h 5 = (Inr \<lparr>size_buffer = 3\<rparr>, ?h1, [DownloadToCall 0 5])"
  proof -
    have p: "0 \<le> sint (5 :: int64) \<and> 0 \<le> sint (3 :: int64) \<and>
          ReadAt ?h (pos ?h) 5 = (Inr 3, [DownloadToCall 0 5])"
      using r0 by simp
    have "Read_buffer ?h 5 =
        (Inr \<lparr>size_buffer = 3\<rparr>, ?h\<lparr>pos := pos ?h + 3\<rparr>, [DownloadToCall 0 5])"
      by (rule Read_advances_by_delivered
          [of ?h 5, THEN conjunct2, THEN conjunct2, THEN conjunct2, THEN conjunct2,
          THEN conjunct2, THEN conjunct2, THEN conjunct1, rule_format, OF p])
    then show ?thesis by (simp add: sample_file_def)
  qed
  moreover have "Read_buffer ?h1 5 =
      (Inr \<lparr>size_buffer = 3\<rparr>, sample_file\<lparr>blob_client := Some short_blob_client, pos := 6\<rparr>,
       [DownloadToCall 3 5])"
  proof -
    have p: "0 \<le> sint (5 :: int64) \<and> 0 \<le> sint (3 :: int64) \<and>
          ReadAt ?h1 (pos ?h1) 5 = (Inr 3, [DownloadToCall 3 5])"
      using r1 by simp
    have "Read_buffer ?h1 5 =
        (Inr \<lparr>size_buffer = 3\<rparr>, ?h1\<lparr>pos := pos ?h1 + 3\<rparr>, [DownloadToCall 3 5])"
      by (rule Read_advances_by_delivered
          [of ?h1 5, THEN conjunct2, THEN conjunct2, THEN conjunct2, THEN conjunct2,
          THEN conjunct2, THEN conjunct2, THEN conjunct1, rule_format, OF p])
    then show ?thesis by (simp add: sample_file_def)
  qed
  ultimately show ?thesis by simp
qed

text \<open>
  C3. For a string \<open>c/a/b\<close> that is not URI-like, with a non-empty separator-free
  container \<open>c\<close> and valid segments \<open>a\<close> and \<open>b\<close> (non-empty, separator-free, neither
  \<^verbatim>\<open>.\<close> nor \<^verbatim>\<open>..\<close>), \<^verbatim>\<open>FromString\<close> splits at the first separator only: container
  \<open>c\<close>, relative path \<open>a/b\<close>, segments \<open>[a, b]\<close>. \<^verbatim>\<open>parent()\<close> pops the last segment:
  container \<open>c\<close>, relative path \<open>a\<close>, full path \<open>c/a\<close>; the parent of that is the
  container alone, with full path \<open>c\<close>. A string with no separator that is not URI-like
  is its own container and full path, with empty relative path and no segments, and has
  no parent.
\<close>

theorem FromString_container_and_segments:
  assumes c: "c \<noteq> []" "kSep \<notin> set c"
    and a: "a \<noteq> []" "kSep \<notin> set a" "a \<noteq> ''.''" "a \<noteq> ''..''"
    and b: "b \<noteq> []" "kSep \<notin> set b" "b \<noteq> ''.''" "b \<noteq> ''..''"
    and uri: "\<not> IsLikelyUri (c @ kSep # a @ kSep # b)"
  shows "FromString (c @ kSep # a @ kSep # b) =
           Inr \<lparr>full_path = c @ kSep # a @ kSep # b, container = c,
                path_to_file = a @ kSep # b, path_to_file_parts = [a, b]\<rparr> \<and>
         parent \<lparr>full_path = c @ kSep # a @ kSep # b, container = c,
                 path_to_file = a @ kSep # b, path_to_file_parts = [a, b]\<rparr> =
           Some \<lparr>full_path = c @ kSep # a, container = c,
                 path_to_file = a, path_to_file_parts = [a]\<rparr> \<and>
         parent \<lparr>full_path = c @ kSep # a, container = c,
                 path_to_file = a, path_to_file_parts = [a]\<rparr> =
           Some \<lparr>full_path = c, container = c, path_to_file = [], path_to_file_parts = []\<rparr> \<and>
         (\<forall>s. kSep \<notin> set s \<and> \<not> IsLikelyUri s \<longrightarrow>
            FromString s = Inr \<lparr>full_path = s, container = s, path_to_file = [],
                                path_to_file_parts = []\<rparr> \<and>
            \<not> has_parent \<lparr>full_path = s, container = s, path_to_file = [],
                           path_to_file_parts = []\<rparr>)"
proof -
  let ?s = "c @ kSep # a @ kSep # b"
  have "last ?s = last b" using b(1) by simp
  moreover have "last b \<noteq> kSep" using b(1,2) last_in_set by metis
  ultimately have r: "RemoveTrailingSlash ?s = ?s"
    by (intro RemoveTrailingSlash_id) simp
  have f: "find_first_of ?s kSep = Some (length c)"
    using c(2) find_first_of_append_found [of kSep c "a @ kSep # b"] by simp
  have sp: "SplitAbstractPath (a @ kSep # b) = [a, b]"
    using a(2) b(2) by (simp add: SplitAbstractPath_def split_on_append split_on_no_sep)
  have v: "ValidateAbstractPathParts [a, b] = None"
    using a b by simp
  have p1: "FromString ?s =
           Inr \<lparr>full_path = ?s, container = c,
                path_to_file = a @ kSep # b, path_to_file_parts = [a, b]\<rparr>"
    unfolding FromString_def using uri c(1)
    by (simp add: r f sp Validate_def v Let_def del: ValidateAbstractPathParts.simps)
  have p2: "parent \<lparr>full_path = ?s, container = c,
                 path_to_file = a @ kSep # b, path_to_file_parts = [a, b]\<rparr> =
           Some \<lparr>full_path = c @ kSep # a, container = c,
                 path_to_file = a, path_to_file_parts = [a]\<rparr>"
    using a(1) by (simp add: parent_def)
  have p3: "parent \<lparr>full_path = c @ kSep # a, container = c,
                 path_to_file = a, path_to_file_parts = [a]\<rparr> =
           Some \<lparr>full_path = c, container = c, path_to_file = [], path_to_file_parts = []\<rparr>"
    by (simp add: parent_def)
  have p4: "\<forall>s. kSep \<notin> set s \<and> \<not> IsLikelyUri s \<longrightarrow>
            FromString s = Inr \<lparr>full_path = s, container = s, path_to_file = [],
                                path_to_file_parts = []\<rparr> \<and>
            \<not> has_parent \<lparr>full_path = s, container = s, path_to_file = [],
                           path_to_file_parts = []\<rparr>"
    by (simp add: FromString_no_sep has_parent_def)
  show ?thesis using p1 p2 p3 p4 by blast
qed

theorem FromString_container_and_segments_witness:
  "FromString ''testcontainer/testdir/testfile.txt'' =
     Inr \<lparr>full_path = ''testcontainer/testdir/testfile.txt'', container = ''testcontainer'',
          path_to_file = ''testdir/testfile.txt'',
          path_to_file_parts = [''testdir'', ''testfile.txt'']\<rparr> \<and>
   parent \<lparr>full_path = ''testcontainer/testdir/testfile.txt'', container = ''testcontainer'',
          path_to_file = ''testdir/testfile.txt'',
          path_to_file_parts = [''testdir'', ''testfile.txt'']\<rparr> =
     Some \<lparr>full_path = ''testcontainer/testdir'', container = ''testcontainer'',
           path_to_file = ''testdir'', path_to_file_parts = [''testdir'']\<rparr> \<and>
   FromString ''testcontainer'' =
     Inr \<lparr>full_path = ''testcontainer'', container = ''testcontainer'',
          path_to_file = [], path_to_file_parts = []\<rparr>"
proof -
  have u: "\<not> IsLikelyUri (''testcontainer'' @ kSep # ''testdir'' @ kSep # ''testfile.txt'')"
    "\<not> IsLikelyUri ''testcontainer''"
    by (simp_all add: IsLikelyUri_def kSep_def)
  have k: "kSep \<notin> set ''testcontainer''" "kSep \<notin> set ''testdir''"
    "kSep \<notin> set ''testfile.txt''"
    by (simp_all add: kSep_def)
  show ?thesis
    using FromString_container_and_segments
      [of "''testcontainer''" "''testdir''" "''testfile.txt''", OF _ k(1) _ k(2) _ _ _ k(3) _ _ u(1)]
      u(2) k(1)
    by (simp add: kSep_def)
qed

text \<open>
  C4. \<^verbatim>\<open>Seek(position)\<close> fails with Invalid on a closed handle; otherwise with Invalid
  when \<open>position < 0\<close>; otherwise with IOError when \<open>position\<close> is beyond the content
  length; otherwise, also when \<open>position\<close> equals the content length, it succeeds and the
  cursor is \<open>position\<close>. A failed seek leaves the handle as it was.
\<close>

theorem Seek_cases:
  "(closed h \<longrightarrow> Seek h position = (Some (Invalid ''Cannot seek on closed file.''), h)) \<and>
   (\<not> closed h \<and> sint position < 0 \<longrightarrow>
      Seek h position = (Some (Invalid ''Cannot seek from negative position''), h)) \<and>
   (\<not> closed h \<and> 0 \<le> sint position \<and> sint (content_length h) < sint position \<longrightarrow>
      Seek h position = (Some (IOError ''Cannot seek past end of file''), h)) \<and>
   (\<not> closed h \<and> 0 \<le> sint position \<and> sint position \<le> sint (content_length h) \<longrightarrow>
      Seek h position = (None, h\<lparr>pos := position\<rparr>))"
  by (auto simp add: Seek_def CheckClosed_def CheckPosition_def word_sless_alt)

theorem Seek_cases_witness:
  "Seek sample_file 12 = (None, sample_file\<lparr>pos := 12\<rparr>) \<and>
   Seek sample_file 13 = (Some (IOError ''Cannot seek past end of file''), sample_file) \<and>
   Seek sample_file (- 1) = (Some (Invalid ''Cannot seek from negative position''), sample_file) \<and>
   Seek (sample_file\<lparr>closed := True\<rparr>) 5 =
     (Some (Invalid ''Cannot seek on closed file.''), sample_file\<lparr>closed := True\<rparr>)"
proof -
  have h: "\<not> closed sample_file" "content_length sample_file = 12"
    by (simp_all add: sample_file_def)
  have "Seek sample_file 12 = (None, sample_file\<lparr>pos := 12\<rparr>)"
    using Seek_cases [of sample_file 12] h by simp
  moreover have "Seek sample_file 13 = (Some (IOError ''Cannot seek past end of file''), sample_file)"
    using Seek_cases [of sample_file 13] h by simp
  moreover have "Seek sample_file (- 1) = (Some (Invalid ''Cannot seek from negative position''), sample_file)"
    using Seek_cases [of sample_file "- 1"] h by simp
  moreover have "Seek (sample_file\<lparr>closed := True\<rparr>) 5 =
     (Some (Invalid ''Cannot seek on closed file.''), sample_file\<lparr>closed := True\<rparr>)"
    using Seek_cases [of "sample_file\<lparr>closed := True\<rparr>" 5] by simp
  ultimately show ?thesis by simp
qed

text \<open>
  C5. When \<^verbatim>\<open>Init()\<close> fetches the properties (no size was supplied) and the store
  throws: a not-found status gives the path-not-found error carrying the full path of the
  handle's address; any other status gives an IOError whose message starts with the
  context \<^verbatim>\<open>When fetching properties for '<url>': \<close> and, after the marker
  \<^verbatim>\<open> Azure Error: \<close>, ends with the exception's own text. The handle is unchanged and
  the store was called once.
\<close>

theorem Init_fetch_failure:
  assumes "content_length h = kNoSize" "blob_client h = Some client"
    "GetProperties client = Inl exception"
  shows "(StatusCode exception = HttpStatusCode_NotFound \<longrightarrow>
            Init h = (Some (PathNotFound (full_path (path h))), h, [GetPropertiesCall])) \<and>
         (StatusCode exception \<noteq> HttpStatusCode_NotFound \<longrightarrow>
            (\<exists>msg. Init h = (Some (IOError msg), h, [GetPropertiesCall]) \<and>
               msg = ''When fetching properties for '' @ apostrophe @ GetUrl client @ apostrophe
                     @ '': '' @ '' Azure Error: '' @ what exception \<and>
               prefix (''When fetching properties for '' @ apostrophe @ GetUrl client
                       @ apostrophe @ '': '') msg \<and>
               suffix (what exception) msg))"
  using assms by (simp add: Init_def ErrorToStatus_def suffix_def)

theorem Init_fetch_failure_witness:
  "Init (new_ObjectInputFile (Some missing_blob_client) sample_path kNoSize) =
     (Some (PathNotFound ''sample-container/sample-blob.txt''),
      new_ObjectInputFile (Some missing_blob_client) sample_path kNoSize, [GetPropertiesCall]) \<and>
   fst (Init (new_ObjectInputFile
          (Some (missing_blob_client\<lparr>GetProperties := Inl \<lparr>StatusCode = 503, what = ''Server busy''\<rparr>\<rparr>))
          sample_path kNoSize)) =
     Some (IOError (''When fetching properties for '' @ apostrophe
                    @ ''http://127.0.0.1:10000/devstoreaccount1/other'' @ apostrophe
                    @ '':  Azure Error: Server busy''))"
proof -
  let ?h = "new_ObjectInputFile (Some missing_blob_client) sample_path kNoSize"
  let ?c = "missing_blob_client\<lparr>GetProperties := Inl \<lparr>StatusCode = 503, what = ''Server busy''\<rparr>\<rparr>"
  let ?g = "new_ObjectInputFile (Some ?c) sample_path kNoSize"
  have "Init ?h = (Some (PathNotFound ''sample-container/sample-blob.txt''), ?h, [GetPropertiesCall])"
    using Init_fetch_failure [of ?h missing_blob_client "\<lparr>StatusCode = 404, what = ''The specified blob does not exist.''\<rparr>"]
    by (simp add: new_ObjectInputFile_def missing_blob_client_def sample_path_def
        HttpStatusCode_NotFound_def)
  moreover have "fst (Init ?g) =
     Some (IOError (''When fetching properties for '' @ apostrophe
                    @ ''http://127.0.0.1:10000/devstoreaccount1/other'' @ apostrophe
                    @ '':  Azure Error: Server busy''))"
    using Init_fetch_failure [of ?g ?c "\<lparr>StatusCode = 503, what = ''Server busy''\<rparr>"]
    by (simp add: new_ObjectInputFile_def missing_blob_client_def
        HttpStatusCode_NotFound_def)
  ultimately show ?thesis by simp
qed

text \<open>
  C6. An address with an empty container is refused with path-not-found, one with a
  container but an empty relative path with not-a-file; both overloads of
  \<^verbatim>\<open>OpenInputFile\<close> return that error for such an address without any store call, and
  a store call is only ever made for an address whose container and relative path are
  both non-empty.
\<close>

theorem OpenInputFile_local_errors:
  "(container p = [] \<longrightarrow> ValidateFilePath p = Some (PathNotFound (full_path p))) \<and>
   (container p \<noteq> [] \<and> path_to_file p = [] \<longrightarrow>
      ValidateFilePath p = Some (NotAFile (full_path p))) \<and>
   (container p \<noteq> [] \<and> path_to_file p \<noteq> [] \<longrightarrow> ValidateFilePath p = None) \<and>
   (check s = None \<and> FromString s = Inr p \<and> container p = [] \<longrightarrow>
      OpenInputFile check impl s = (Inl (PathNotFound (full_path p)), [])) \<and>
   (check s = None \<and> FromString s = Inr p \<and> container p \<noteq> [] \<and> path_to_file p = [] \<longrightarrow>
      OpenInputFile check impl s = (Inl (NotAFile (full_path p)), [])) \<and>
   (snd (OpenInputFile check impl s) \<noteq> [] \<longrightarrow>
      (\<exists>q. FromString s = Inr q \<and> container q \<noteq> [] \<and> path_to_file q \<noteq> [])) \<and>
   (check (info_path info) = None \<and> info_type info \<in> {File, Unknown} \<and>
    FromString (info_path info) = Inr p \<and> container p = [] \<longrightarrow>
      OpenInputFile_info check impl info = (Inl (PathNotFound (full_path p)), [])) \<and>
   (check (info_path info) = None \<and> info_type info \<in> {File, Unknown} \<and>
    FromString (info_path info) = Inr p \<and> container p \<noteq> [] \<and> path_to_file p = [] \<longrightarrow>
      OpenInputFile_info check impl info = (Inl (NotAFile (full_path p)), [])) \<and>
   (snd (OpenInputFile_info check impl info) \<noteq> [] \<longrightarrow>
      (\<exists>q. FromString (info_path info) = Inr q \<and> container q \<noteq> [] \<and> path_to_file q \<noteq> []))"
proof -
  have v: "(container p = [] \<longrightarrow> ValidateFilePath p = Some (PathNotFound (full_path p))) \<and>
   (container p \<noteq> [] \<and> path_to_file p = [] \<longrightarrow>
      ValidateFilePath p = Some (NotAFile (full_path p))) \<and>
   (container p \<noteq> [] \<and> path_to_file p \<noteq> [] \<longrightarrow> ValidateFilePath p = None)"
    by (simp add: ValidateFilePath_def)
  have o1: "check s = None \<and> FromString s = Inr p \<and> container p = [] \<longrightarrow>
      OpenInputFile check impl s = (Inl (PathNotFound (full_path p)), [])"
    by (simp add: OpenInputFile_def ValidateFilePath_def)
  have o2: "check s = None \<and> FromString s = Inr p \<and> container p \<noteq> [] \<and> path_to_file p = [] \<longrightarrow>
      OpenInputFile check impl s = (Inl (NotAFile (full_path p)), [])"
    by (simp add: OpenInputFile_def ValidateFilePath_def)
  have o3: "snd (OpenInputFile check impl s) \<noteq> [] \<longrightarrow>
      (\<exists>q. FromString s = Inr q \<and> container q \<noteq> [] \<and> path_to_file q \<noteq> [])"
    by (auto simp add: OpenInputFile_def ValidateFilePath_def
        split: option.splits sum.splits if_splits)
  have i1: "check (info_path info) = None \<and> info_type info \<in> {File, Unknown} \<and>
    FromString (info_path info) = Inr p \<and> container p = [] \<longrightarrow>
      OpenInputFile_info check impl info = (Inl (PathNotFound (full_path p)), [])"
    by (auto simp add: OpenInputFile_info_def ValidateFilePath_def)
  have i2: "check (info_path info) = None \<and> info_type info \<in> {File, Unknown} \<and>
    FromString (info_path info) = Inr p \<and> container p \<noteq> [] \<and> path_to_file p = [] \<longrightarrow>
      OpenInputFile_info check impl info = (Inl (NotAFile (full_path p)), [])"
    by (auto simp add: OpenInputFile_info_def ValidateFilePath_def)
  have i3: "snd (OpenInputFile_info check impl info) \<noteq> [] \<longrightarrow>
      (\<exists>q. FromString (info_path info) = Inr q \<and> container q \<noteq> [] \<and> path_to_file q \<noteq> [])"
    by (auto simp add: OpenInputFile_info_def ValidateFilePath_def
        split: option.splits sum.splits if_splits)
  show ?thesis using v o1 o2 o3 i1 i2 i3 by blast
qed

theorem OpenInputFile_local_errors_witness:
  "OpenInputFile (\<lambda>s. None) sample_impl [] = (Inl (PathNotFound []), []) \<and>
   OpenInputFile (\<lambda>s. None) sample_impl ''sample-container'' =
     (Inl (NotAFile ''sample-container''), []) \<and>
   snd (OpenInputFile (\<lambda>s. None) sample_impl ''sample-container/sample-blob.txt'') =
     [GetPropertiesCall]"
proof -
  let ?e = "\<lparr>full_path = [], container = [], path_to_file = [], path_to_file_parts = []\<rparr>"
  let ?c = "\<lparr>full_path = ''sample-container'', container = ''sample-container'',
          path_to_file = [], path_to_file_parts = []\<rparr>"
  have "OpenInputFile (\<lambda>s. None) sample_impl [] = (Inl (PathNotFound []), [])"
    using OpenInputFile_local_errors [of ?e "\<lambda>s. None" "[]" sample_impl]
    by (simp add: FromString_examples)
  moreover have "OpenInputFile (\<lambda>s. None) sample_impl ''sample-container'' =
     (Inl (NotAFile ''sample-container''), [])"
    using OpenInputFile_local_errors [of ?c "\<lambda>s. None" "''sample-container''" sample_impl]
    by (simp add: FromString_examples)
  moreover have "snd (OpenInputFile (\<lambda>s. None) sample_impl ''sample-container/sample-blob.txt'') =
     [GetPropertiesCall]"
    by (simp add: OpenInputFile_def FromString_examples ValidateFilePath_def sample_path_def
        sample_impl_def Init_def new_ObjectInputFile_def kNoSize_def sample_blob_client_def)
  ultimately show ?thesis by simp
qed

text \<open>
  C7. If \<^verbatim>\<open>FromString\<close> succeeds on \<open>s\<close> with address \<open>a\<close>, then it succeeds on
  \<open>full_path a\<close> with the same address, so the reparsed address equals \<open>a\<close> under
  \<^verbatim>\<open>operator==\<close>; \<open>full_path a\<close> is \<open>s\<close> without its trailing separators, and
  every string that differs from \<open>s\<close> only in trailing separators parses to \<open>a\<close> too.
  \<^verbatim>\<open>operator==\<close> holds exactly when the (container, relative path) pairs are equal.
\<close>

theorem FromString_round_trip:
  assumes "FromString s = Inr a"
  shows "FromString (full_path a) = Inr a \<and>
         full_path a = RemoveTrailingSlash s \<and>
         (\<forall>s'. RemoveTrailingSlash s' = RemoveTrailingSlash s \<longrightarrow> FromString s' = Inr a) \<and>
         (\<forall>b. FromString (full_path a) = Inr b \<longrightarrow> path_equals b a) \<and>
         (\<forall>b c. path_equals b c \<longleftrightarrow>
            (container b, path_to_file b) = (container c, path_to_file c))"
proof -
  have fp: "full_path a = RemoveTrailingSlash s"
    using assms by (rule FromString_full_path)
  have rt: "FromString (full_path a) = Inr a"
    using assms unfolding fp
    by (rule FromString_Inr_cong)
      (simp_all add: IsLikelyUri_RemoveTrailingSlash RemoveTrailingSlash_idem)
  have sl: "\<forall>s'. RemoveTrailingSlash s' = RemoveTrailingSlash s \<longrightarrow> FromString s' = Inr a"
  proof (intro allI impI)
    fix s'
    assume e: "RemoveTrailingSlash s' = RemoveTrailingSlash s"
    have "IsLikelyUri s' = IsLikelyUri (RemoveTrailingSlash s')"
      by (simp add: IsLikelyUri_RemoveTrailingSlash)
    also have "\<dots> = IsLikelyUri s"
      unfolding e by (simp add: IsLikelyUri_RemoveTrailingSlash)
    finally show "FromString s' = Inr a"
      using assms e by (intro FromString_Inr_cong [of s a s'])
  qed
  have eq: "\<forall>b c. path_equals b c \<longleftrightarrow>
            (container b, path_to_file b) = (container c, path_to_file c)"
    by (simp add: path_equals_def)
  have "\<forall>b. FromString (full_path a) = Inr b \<longrightarrow> path_equals b a"
    using rt by (simp add: path_equals_def)
  with fp rt sl eq show ?thesis by blast
qed

theorem FromString_round_trip_witness:
  "FromString ''testcontainer/testdir/'' =
     Inr \<lparr>full_path = ''testcontainer/testdir'', container = ''testcontainer'',
          path_to_file = ''testdir'', path_to_file_parts = [''testdir'']\<rparr> \<and>
   FromString ''testcontainer/testdir'' =
     Inr \<lparr>full_path = ''testcontainer/testdir'', container = ''testcontainer'',
          path_to_file = ''testdir'', path_to_file_parts = [''testdir'']\<rparr> \<and>
   FromString ''testcontainer/testdir//'' =
     Inr \<lparr>full_path = ''testcontainer/testdir'', container = ''testcontainer'',
          path_to_file = ''testdir'', path_to_file_parts = [''testdir'']\<rparr>"
proof -
  let ?a = "\<lparr>full_path = ''testcontainer/testdir'', container = ''testcontainer'',
          path_to_file = ''testdir'', path_to_file_parts = [''testdir'']\<rparr>"
  have p: "FromString ''testcontainer/testdir/'' = Inr ?a"
    by (simp add: FromString_def IsLikelyUri_def RemoveTrailingSlash_def kSep_def
        SplitAbstractPath_def Validate_def)
  note w = FromString_round_trip [OF p]
  from w have a1: "FromString (full_path ?a) = Inr ?a" by blast
  have r: "RemoveTrailingSlash ''testcontainer/testdir//'' =
           RemoveTrailingSlash ''testcontainer/testdir/''"
    by (simp add: RemoveTrailingSlash_def kSep_def)
  from w r have a2: "FromString ''testcontainer/testdir//'' = Inr ?a" by blast
  show ?thesis
    using p a1 a2 by simp
qed

text \<open>
  C8. \<^verbatim>\<open>AzureOptions::Equals\<close> holds exactly when the two URLs and the credential kind
  are equal. The credential itself is not compared: options that differ only in it are
  equal, as are options configured for the same account with different keys.
\<close>

theorem Equals_iff:
  "(Equals a b \<longleftrightarrow>
      account_dfs_url a = account_dfs_url b \<and>
      account_blob_url a = account_blob_url b \<and>
      credentials_kind a = credentials_kind b) \<and>
   Equals (a\<lparr>storage_credentials_provider := c1\<rparr>) (a\<lparr>storage_credentials_provider := c2\<rparr>) \<and>
   Equals (snd (ConfigureAccountKeyCredentials a name key1))
          (snd (ConfigureAccountKeyCredentials a name key2))"
  by (simp add: Equals_def ConfigureAccountKeyCredentials_def Let_def)

theorem Equals_iff_witness:
  "Equals (snd (ConfigureAccountKeyCredentials (options sample_impl) ''devstoreaccount1'' ''key-one''))
          (snd (ConfigureAccountKeyCredentials (options sample_impl) ''devstoreaccount1'' ''key-two'')) \<and>
   storage_credentials_provider
     (snd (ConfigureAccountKeyCredentials (options sample_impl) ''devstoreaccount1'' ''key-one'')) \<noteq>
   storage_credentials_provider
     (snd (ConfigureAccountKeyCredentials (options sample_impl) ''devstoreaccount1'' ''key-two''))"
  using Equals_iff [of "options sample_impl" "options sample_impl" None None "''devstoreaccount1''" "''key-one''" "''key-two''"]
  by (simp add: ConfigureAccountKeyCredentials_def Let_def)

text \<open>
  C9. After \<^verbatim>\<open>Close()\<close>, \<^verbatim>\<open>ReadMetadata\<close> and \<^verbatim>\<open>ReadMetadataAsync\<close> still succeed
  with the cached metadata, the same answer as before closing, whereas \<^verbatim>\<open>Tell\<close>,
  \<^verbatim>\<open>GetSize\<close>, \<^verbatim>\<open>Seek\<close> and the four reads fail with Invalid on the closed handle.
\<close>

theorem ReadMetadata_after_Close:
  "ReadMetadata (snd (Close h)) = Inr (metadata h) \<and>
   ReadMetadataAsync (snd (Close h)) = Inr (metadata h) \<and>
   ReadMetadata (snd (Close h)) = ReadMetadata h \<and>
   ReadMetadataAsync (snd (Close h)) = ReadMetadataAsync h \<and>
   Tell (snd (Close h)) = Inl (Invalid ''Cannot tell on closed file.'') \<and>
   GetSize (snd (Close h)) = Inl (Invalid ''Cannot size on closed file.'') \<and>
   Seek (snd (Close h)) position = (Some (Invalid ''Cannot seek on closed file.''), snd (Close h)) \<and>
   ReadAt (snd (Close h)) position nbytes = (Inl (Invalid ''Cannot read on closed file.''), []) \<and>
   ReadAt_buffer (snd (Close h)) position nbytes = (Inl (Invalid ''Cannot read on closed file.''), []) \<and>
   Read (snd (Close h)) nbytes = (Inl (Invalid ''Cannot read on closed file.''), snd (Close h), []) \<and>
   Read_buffer (snd (Close h)) nbytes = (Inl (Invalid ''Cannot read on closed file.''), snd (Close h), [])"
  by (simp add: ReadMetadata_def ReadMetadataAsync_def Close_def Tell_def GetSize_def Seek_def
      ReadAt_def ReadAt_buffer_def Read_def Read_buffer_def CheckClosed_def)

theorem ReadMetadata_after_Close_witness:
  "ReadMetadata (snd (Close sample_file)) = Inr (Some [(''origin'', ''test'')]) \<and>
   ReadMetadataAsync (snd (Close sample_file)) = Inr (Some [(''origin'', ''test'')]) \<and>
   Tell (snd (Close sample_file)) = Inl (Invalid ''Cannot tell on closed file.'')"
  using ReadMetadata_after_Close [of sample_file 0 0] by (simp add: sample_file_def)

text \<open>
  C10. \<^verbatim>\<open>Close()\<close> returns OK, drops the blob client and sets the closed flag; a second
  \<^verbatim>\<open>Close()\<close> returns OK again and changes nothing.
\<close>

theorem Close_idempotent:
  "fst (Close h) = None \<and>
   closed (snd (Close h)) \<and>
   blob_client (snd (Close h)) = None \<and>
   fst (Close (snd (Close h))) = None \<and>
   snd (Close (snd (Close h))) = snd (Close h) \<and>
   closed (snd (Close (snd (Close h))))"
  by (simp add: Close_def)

theorem Close_idempotent_witness:
  "fst (Close sample_file) = None \<and>
   closed (snd (Close sample_file)) \<and>
   blob_client (snd (Close sample_file)) = None \<and>
   snd (Close (snd (Close sample_file))) = snd (Close sample_file)"
  using Close_idempotent [of sample_file] by simp

end
